theory Spec2Isabelle
  imports Main "HOL-Library.Word" "HOL-Library.AList"
begin

section \<open>Data model\<close>

text \<open>
  The timer service of \<^verbatim>\<open>internal/service\<close> (the variant with the tick engine) and the
  push-channel handler of \<^verbatim>\<open>internal/websocket\<close>, embedded as functions on an explicit
  world state. Go's \<^verbatim>\<open>int64\<close> is a 64-bit word read as two's complement; \<^verbatim>\<open>uint\<close>
  identifiers are natural numbers (the code never does arithmetic on them).
\<close>

type_synonym int64 = "64 word"

record Timer =
  ID :: nat
  SessionID :: string
  MaxTime :: int64
  CurrentTime :: int64
  IsPaused :: bool

record TimerRequest =
  req_SessionID :: string
  req_MaxTime :: int64

type_synonym MessageType = string

definition TypeTimerUpdate :: MessageType where "TypeTimerUpdate = ''TIMER_UPDATE''"
definition TypeTimerCreate :: MessageType where "TypeTimerCreate = ''TIMER_CREATE''"
definition TypeTimerPause :: MessageType where "TypeTimerPause = ''TIMER_PAUSE''"
definition TypeTimerResume :: MessageType where "TypeTimerResume = ''TIMER_RESUME''"
definition TypeTimerModify :: MessageType where "TypeTimerModify = ''TIMER_MODIFY''"

record WebSocketMessage =
  Type :: MessageType
  Payload :: string

text \<open>A connection handle stands for a \<^verbatim>\<open>*websocket.Conn\<close>.\<close>

type_synonym conn = nat

text \<open>
  Every call that leaves the process (durable store, cache, push channel) is recorded in
  a trace, in program order. This is what makes "attempted", "delivered to" and "in order"
  observable.
\<close>

datatype call =
    RepoCreate Timer
  | RepoUpdate Timer
  | RepoFindByID nat
  | RepoDelete nat
  | RepoGetActiveTimers
  | RedisSet string string
  | RedisGet string
  | RedisDel string
  | RedisKeys string
  | ConnWriteJSON conn WebSocketMessage
  | ConnClose conn

datatype error =
    StoreError
  | ErrRecordNotFound
  | ErrDuplicateKey
  | RedisError
  | RedisNil
  | PanicCloseOfClosedChannel

text \<open>
  What the program does not decide: which external calls come back with an error, and
  the JSON codec of the standard library. Theorems hold for every choice. Whether a call
  fails depends on the call and its arguments only: a call repeated with the same
  arguments has the same outcome.
\<close>

record env =
  fails :: "call \<Rightarrow> bool"
  json_Marshal :: "Timer \<Rightarrow> string option"
  json_Marshal_id :: "nat \<Rightarrow> string option"
  json_Unmarshal :: "string \<Rightarrow> Timer option"
  json_Unmarshal_TimerRequest :: "string \<Rightarrow> TimerRequest option"

text \<open>
  The world: the rows of the timers table with its auto-increment counter, the cache as
  a key-value list, the handler's \<^verbatim>\<open>connections map[string]*websocket.Conn\<close> as a key-value
  list with one entry per key, the state of \<^verbatim>\<open>stopChan\<close>, and the trace.
\<close>

record world =
  rows :: "Timer list"
  next_id :: nat
  redis :: "(string \<times> string) list"
  connections :: "(string \<times> conn) list"
  stopChan_closed :: bool
  trace :: "call list"

definition record_call :: "call \<Rightarrow> world \<Rightarrow> world" where
  "record_call c w = w\<lparr>trace := trace w @ [c]\<rparr>"

section \<open>Durable store (repository over the ORM)\<close>

text \<open>
  The repository forwards each call to the ORM. The ORM and the database are outside the
  repository; what is modelled of them is a table of rows with a primary key and an
  auto-increment counter, and a call that either fails or takes effect at once.
\<close>

definition insert_row :: "Timer \<Rightarrow> world \<Rightarrow> Timer \<times> world" where
  "insert_row t w =
     (if ID t = 0
      then (let t' = t\<lparr>ID := next_id w\<rparr>
            in (t', w\<lparr>rows := rows w @ [t'], next_id := Suc (next_id w)\<rparr>))
      else (t, w\<lparr>rows := rows w @ [t], next_id := max (next_id w) (Suc (ID t))\<rparr>))"

definition has_row :: "nat \<Rightarrow> world \<Rightarrow> bool" where
  "has_row i w = (\<exists>r \<in> set (rows w). ID r = i)"

definition find_row :: "nat \<Rightarrow> world \<Rightarrow> Timer option" where
  "find_row i w = find (\<lambda>r. ID r = i) (rows w)"

text \<open>\<^verbatim>\<open>Create\<close>: \<^verbatim>\<open>r.db.Create(timer).Error\<close>; the primary key is written back through the pointer.\<close>

definition repo_Create :: "env \<Rightarrow> Timer \<Rightarrow> world \<Rightarrow> (error + Timer) \<times> world" where
  "repo_Create e t w =
     (let w1 = record_call (RepoCreate t) w
      in if fails e (RepoCreate t) then (Inl StoreError, w1)
         else if ID t \<noteq> 0 \<and> has_row (ID t) w1 then (Inl ErrDuplicateKey, w1)
         else (case insert_row t w1 of (t', w2) \<Rightarrow> (Inr t', w2)))"

text \<open>
  \<^verbatim>\<open>Update\<close>: \<^verbatim>\<open>r.db.Save(timer).Error\<close>. Save writes all fields of the row with the timer's
  primary key; with a zero key it creates, and with a key that has no row it inserts.
\<close>

definition save_row :: "Timer \<Rightarrow> world \<Rightarrow> Timer \<times> world" where
  "save_row t w =
     (if ID t \<noteq> 0 \<and> has_row (ID t) w
      then (t, w\<lparr>rows := map (\<lambda>r. if ID r = ID t then t else r) (rows w)\<rparr>)
      else insert_row t w)"

definition repo_Update :: "env \<Rightarrow> Timer \<Rightarrow> world \<Rightarrow> (error + Timer) \<times> world" where
  "repo_Update e t w =
     (let w1 = record_call (RepoUpdate t) w
      in if fails e (RepoUpdate t) then (Inl StoreError, w1)
         else (case save_row t w1 of (t', w2) \<Rightarrow> (Inr t', w2)))"

text \<open>\<^verbatim>\<open>FindByID\<close>: \<^verbatim>\<open>r.db.First(&timer, id)\<close>.\<close>

definition repo_FindByID :: "env \<Rightarrow> nat \<Rightarrow> world \<Rightarrow> (error + Timer) \<times> world" where
  "repo_FindByID e i w =
     (let w1 = record_call (RepoFindByID i) w
      in if fails e (RepoFindByID i) then (Inl StoreError, w1)
         else (case find_row i w1 of
                 None \<Rightarrow> (Inl ErrRecordNotFound, w1)
               | Some t \<Rightarrow> (Inr t, w1)))"

text \<open>\<^verbatim>\<open>Delete\<close>: \<^verbatim>\<open>r.db.Delete(&types.Timer{}, id)\<close>; deleting no row is not an error.\<close>

definition repo_Delete :: "env \<Rightarrow> nat \<Rightarrow> world \<Rightarrow> error option \<times> world" where
  "repo_Delete e i w =
     (let w1 = record_call (RepoDelete i) w
      in if fails e (RepoDelete i) then (Some StoreError, w1)
         else (None, w1\<lparr>rows := filter (\<lambda>r. ID r \<noteq> i) (rows w1)\<rparr>))"

text \<open>
  Modelled from the spec: \<^verbatim>\<open>GetActiveTimers\<close>, which the service calls on the repository
  and whose implementation is not among the sources. The spec: "Fetch all Timers the
  Durable Store reports as active (not deleted)"; the table holds no deleted rows.
\<close>

definition repo_GetActiveTimers :: "env \<Rightarrow> world \<Rightarrow> (error + Timer list) \<times> world" where
  "repo_GetActiveTimers e w =
     (let w1 = record_call RepoGetActiveTimers w
      in if fails e RepoGetActiveTimers then (Inl StoreError, w1)
         else (Inr (rows w1), w1))"

section \<open>Snapshot cache\<close>

definition redis_Set :: "env \<Rightarrow> string \<Rightarrow> string \<Rightarrow> world \<Rightarrow> error option \<times> world" where
  "redis_Set e k v w =
     (let w1 = record_call (RedisSet k v) w
      in if fails e (RedisSet k v) then (Some RedisError, w1)
         else (None, w1\<lparr>redis := AList.update k v (redis w1)\<rparr>))"

definition redis_Get :: "env \<Rightarrow> string \<Rightarrow> world \<Rightarrow> (error + string) \<times> world" where
  "redis_Get e k w =
     (let w1 = record_call (RedisGet k) w
      in if fails e (RedisGet k) then (Inl RedisError, w1)
         else (case map_of (redis w1) k of
                 None \<Rightarrow> (Inl RedisNil, w1)
               | Some v \<Rightarrow> (Inr v, w1)))"

definition redis_Del :: "env \<Rightarrow> string \<Rightarrow> world \<Rightarrow> world" where
  "redis_Del e k w =
     (let w1 = record_call (RedisDel k) w
      in if fails e (RedisDel k) then w1
         else w1\<lparr>redis := AList.delete k (redis w1)\<rparr>)"

text \<open>\<^verbatim>\<open>Keys(ctx, p + "*")\<close> for a literal prefix \<open>p\<close>.\<close>

definition has_prefix :: "string \<Rightarrow> string \<Rightarrow> bool" where
  "has_prefix p s = (take (length p) s = p)"

definition redis_Keys :: "env \<Rightarrow> string \<Rightarrow> world \<Rightarrow> (error + string list) \<times> world" where
  "redis_Keys e p w =
     (let w1 = record_call (RedisKeys p) w
      in if fails e (RedisKeys p) then (Inl RedisError, w1)
         else (Inr (filter (has_prefix p) (map fst (redis w1))), w1))"

section \<open>Push-channel handler\<close>

text \<open>
  \<^verbatim>\<open>handleWebSocket\<close>, after a successful upgrade and before the read loop:
  \<^verbatim>\<open>h.connections[sessionID] = conn\<close>. The role flag is a local of the read loop and is not
  stored in the map.
\<close>

definition register :: "string \<Rightarrow> bool \<Rightarrow> conn \<Rightarrow> world \<Rightarrow> world" where
  "register sessionID isGameMaster c w =
     w\<lparr>connections := AList.update sessionID c (connections w)\<rparr>"

text \<open>\<^verbatim>\<open>closeConnection\<close>: \<^verbatim>\<open>delete(h.connections, sessionID); conn.Close()\<close>.\<close>

definition closeConnection :: "string \<Rightarrow> conn \<Rightarrow> world \<Rightarrow> world" where
  "closeConnection sessionID c w =
     record_call (ConnClose c) (w\<lparr>connections := AList.delete sessionID (connections w)\<rparr>)"

text \<open>
  \<^verbatim>\<open>broadcastMessage\<close>: the loop over the map. A failed write is logged and the loop goes on,
  so a write changes the trace only. Go visits the entries of a map in no fixed order;
  the order of the list stands for one such order, and the properties below are about
  which entries are written to.
\<close>

fun broadcastMessage_loop ::
  "WebSocketMessage \<Rightarrow> string \<Rightarrow> bool \<Rightarrow> (string \<times> conn) list \<Rightarrow> world \<Rightarrow> world" where
  "broadcastMessage_loop message sessionID isGameMaster [] w = w"
| "broadcastMessage_loop message sessionID isGameMaster ((connSessionID, c) # cs) w =
     (if isGameMaster \<or> connSessionID = sessionID
      then broadcastMessage_loop message sessionID isGameMaster cs
             (record_call (ConnWriteJSON c message) w)
      else broadcastMessage_loop message sessionID isGameMaster cs w)"

definition broadcastMessage :: "WebSocketMessage \<Rightarrow> string \<Rightarrow> bool \<Rightarrow> world \<Rightarrow> world" where
  "broadcastMessage message sessionID isGameMaster w =
     broadcastMessage_loop message sessionID isGameMaster (connections w) w"

definition Handler_broadcastTimerUpdate :: "env \<Rightarrow> Timer \<Rightarrow> bool \<Rightarrow> world \<Rightarrow> world" where
  "Handler_broadcastTimerUpdate e timer isGameMaster w =
     (case json_Marshal e timer of
        None \<Rightarrow> w
      | Some payload \<Rightarrow>
          broadcastMessage \<lparr>Type = TypeTimerUpdate, Payload = payload\<rparr>
            (SessionID timer) isGameMaster w)"


text \<open>The entry point the timer service uses: "Broadcast to all, including game masters".\<close>

definition BroadcastTimerUpdate :: "env \<Rightarrow> Timer \<Rightarrow> world \<Rightarrow> world" where
  "BroadcastTimerUpdate e timer w = Handler_broadcastTimerUpdate e timer True w"

section \<open>Timer service\<close>

text \<open>\<^verbatim>\<open>fmt.Sprint(id)\<close> for an unsigned integer: its decimal digits.\<close>

definition digit_char :: "nat \<Rightarrow> char" where
  "digit_char d = ''0123456789'' ! d"

function Sprint :: "nat \<Rightarrow> string" where
  "Sprint n = (if n < 10 then [digit_char n] else Sprint (n div 10) @ [digit_char (n mod 10)])"
  by pat_completeness auto
termination
  by (relation "measure (\<lambda>n. n)") auto

declare Sprint.simps [simp del]

definition persistTimer :: "env \<Rightarrow> Timer \<Rightarrow> world \<Rightarrow> world" where
  "persistTimer e timer w =
     (case json_Marshal e timer of
        None \<Rightarrow> w
      | Some timerJSON \<Rightarrow> snd (redis_Set e (''timer:'' @ SessionID timer) timerJSON w))"

definition broadcastTimerUpdate :: "env \<Rightarrow> Timer \<Rightarrow> world \<Rightarrow> world" where
  "broadcastTimerUpdate e timer w =
     (let wsTimer = \<lparr>ID = ID timer, SessionID = SessionID timer, MaxTime = MaxTime timer,
                     CurrentTime = CurrentTime timer, IsPaused = IsPaused timer\<rparr>
      in BroadcastTimerUpdate e wsTimer w)"

fun updateTimers_loop :: "env \<Rightarrow> Timer list \<Rightarrow> world \<Rightarrow> world" where
  "updateTimers_loop e [] w = w"
| "updateTimers_loop e (timer # timers) w =
     (if \<not> IsPaused timer \<and> 0 <s CurrentTime timer
      then (case repo_Update e (timer\<lparr>CurrentTime := CurrentTime timer - 1\<rparr>) w of
              (Inl err, w1) \<Rightarrow> updateTimers_loop e timers w1
            | (Inr timer', w1) \<Rightarrow> updateTimers_loop e timers (broadcastTimerUpdate e timer' w1))
      else updateTimers_loop e timers w)"

definition updateTimers :: "env \<Rightarrow> world \<Rightarrow> world" where
  "updateTimers e w =
     (case repo_GetActiveTimers e w of
        (Inl err, w1) \<Rightarrow> w1
      | (Inr timers, w1) \<Rightarrow> updateTimers_loop e timers w1)"

text \<open>
  \<^verbatim>\<open>StopTimerUpdates\<close>: \<^verbatim>\<open>close(s.stopChan)\<close>. Closing a closed channel is a run-time panic.
\<close>

definition StopTimerUpdates :: "world \<Rightarrow> error + world" where
  "StopTimerUpdates w =
     (if stopChan_closed w then Inl PanicCloseOfClosedChannel
      else Inr (w\<lparr>stopChan_closed := True\<rparr>))"

definition CreateTimer :: "env \<Rightarrow> string \<Rightarrow> int64 \<Rightarrow> world \<Rightarrow> (error + Timer) \<times> world" where
  "CreateTimer e sessionID maxTime w =
     (let timer = \<lparr>ID = 0, SessionID = sessionID, MaxTime = maxTime,
                   CurrentTime = maxTime, IsPaused = False\<rparr>
      in case repo_Create e timer w of
           (Inl err, w1) \<Rightarrow> (Inl err, w1)
         | (Inr timer', w1) \<Rightarrow> (Inr timer', persistTimer e timer' w1))"

definition PauseTimer :: "env \<Rightarrow> nat \<Rightarrow> world \<Rightarrow> (error + Timer) \<times> world" where
  "PauseTimer e i w =
     (case repo_FindByID e i w of
        (Inl err, w1) \<Rightarrow> (Inl err, w1)
      | (Inr timer, w1) \<Rightarrow>
          (case repo_Update e (timer\<lparr>IsPaused := True\<rparr>) w1 of
             (Inl err, w2) \<Rightarrow> (Inl err, w2)
           | (Inr timer', w2) \<Rightarrow> (Inr timer', persistTimer e timer' w2)))"

definition ResumeTimer :: "env \<Rightarrow> nat \<Rightarrow> world \<Rightarrow> (error + Timer) \<times> world" where
  "ResumeTimer e i w =
     (case repo_FindByID e i w of
        (Inl err, w1) \<Rightarrow> (Inl err, w1)
      | (Inr timer, w1) \<Rightarrow>
          (case repo_Update e (timer\<lparr>IsPaused := False\<rparr>) w1 of
             (Inl err, w2) \<Rightarrow> (Inl err, w2)
           | (Inr timer', w2) \<Rightarrow> (Inr timer', persistTimer e timer' w2)))"

definition StopTimer :: "env \<Rightarrow> nat \<Rightarrow> world \<Rightarrow> error option \<times> world" where
  "StopTimer e i w =
     (case repo_Delete e i w of
        (Some err, w1) \<Rightarrow> (Some err, w1)
      | (None, w1) \<Rightarrow> (None, redis_Del e (''timer:'' @ Sprint i) w1))"

definition ModifyTimer :: "env \<Rightarrow> nat \<Rightarrow> int64 \<Rightarrow> world \<Rightarrow> (error + Timer) \<times> world" where
  "ModifyTimer e i newMaxTime w =
     (case repo_FindByID e i w of
        (Inl err, w1) \<Rightarrow> (Inl err, w1)
      | (Inr timer, w1) \<Rightarrow>
          (case repo_Update e (timer\<lparr>MaxTime := newMaxTime, CurrentTime := newMaxTime\<rparr>) w1 of
             (Inl err, w2) \<Rightarrow> (Inl err, w2)
           | (Inr timer', w2) \<Rightarrow> (Inr timer', persistTimer e timer' w2)))"

fun RestoreTimers_loop :: "env \<Rightarrow> string list \<Rightarrow> world \<Rightarrow> world" where
  "RestoreTimers_loop e [] w = w"
| "RestoreTimers_loop e (key # keys) w =
     (case redis_Get e key w of
        (Inl err, w1) \<Rightarrow> RestoreTimers_loop e keys w1
      | (Inr timerJSON, w1) \<Rightarrow>
          (case json_Unmarshal e timerJSON of
             None \<Rightarrow> RestoreTimers_loop e keys w1
           | Some timer \<Rightarrow> RestoreTimers_loop e keys (snd (repo_Update e timer w1))))"

definition RestoreTimers :: "env \<Rightarrow> world \<Rightarrow> error option \<times> world" where
  "RestoreTimers e w =
     (case redis_Keys e ''timer:'' w of
        (Inl err, w1) \<Rightarrow> (Some err, w1)
      | (Inr keys, w1) \<Rightarrow> (None, RestoreTimers_loop e keys w1))"

section \<open>Inbound stop message\<close>





section \<open>Vocabulary of the properties\<close>

text \<open>The state after \<^verbatim>\<open>NewTimerService\<close> and \<^verbatim>\<open>NewHandler\<close> on an empty table and cache.\<close>

definition NewWorld :: world where
  "NewWorld = \<lparr>rows = [], next_id = 1, redis = [], connections = [],
               stopChan_closed = False, trace = []\<rparr>"

text \<open>The table is well formed: primary keys are distinct, non-zero and below the counter.\<close>

definition wf_rows :: "world \<Rightarrow> bool" where
  "wf_rows w = (distinct (map ID (rows w)) \<and> (\<forall>r \<in> set (rows w). 0 < ID r \<and> ID r < next_id w))"

text \<open>The condition of the tick, and the value it writes.\<close>

definition tick_due :: "Timer \<Rightarrow> bool" where
  "tick_due t = (\<not> IsPaused t \<and> 0 <s CurrentTime t)"

definition decremented :: "Timer \<Rightarrow> Timer" where
  "decremented t = t\<lparr>CurrentTime := CurrentTime t - 1\<rparr>"

text \<open>The invariant \<open>0 \<le> currentTime \<le> maxTime\<close>, on a timer and on every row.\<close>

definition inv_timer :: "Timer \<Rightarrow> bool" where
  "inv_timer t = (0 \<le>s CurrentTime t \<and> CurrentTime t \<le>s MaxTime t)"

definition inv_rows :: "world \<Rightarrow> bool" where
  "inv_rows w = (\<forall>r \<in> set (rows w). inv_timer r)"

text \<open>Projections of a trace.\<close>

fun conn_writes :: "call list \<Rightarrow> (conn \<times> WebSocketMessage) list" where
  "conn_writes [] = []"
| "conn_writes (ConnWriteJSON c m # cs) = (c, m) # conn_writes cs"
| "conn_writes (_ # cs) = conn_writes cs"

fun repo_updates :: "call list \<Rightarrow> Timer list" where
  "repo_updates [] = []"
| "repo_updates (RepoUpdate t # cs) = t # repo_updates cs"
| "repo_updates (_ # cs) = repo_updates cs"

fun redis_gets :: "call list \<Rightarrow> string list" where
  "redis_gets [] = []"
| "redis_gets (RedisGet k # cs) = k # redis_gets cs"
| "redis_gets (_ # cs) = redis_gets cs"

fun redis_sets :: "call list \<Rightarrow> (string \<times> string) list" where
  "redis_sets [] = []"
| "redis_sets (RedisSet k v # cs) = (k, v) # redis_sets cs"
| "redis_sets (_ # cs) = redis_sets cs"

text \<open>
  A fault-free environment for concrete runs. Its codec is a stand-in (identifier, session
  and current time, separated by colons): no theorem depends on what the JSON text looks
  like.
\<close>

definition test_env :: env where
  "test_env = \<lparr>fails = (\<lambda>c. False),
               json_Marshal = (\<lambda>t. Some (Sprint (ID t) @ '':'' @ SessionID t @ '':'' @
                                        Sprint (unat (CurrentTime t)))),
               json_Marshal_id = (\<lambda>i. Some (Sprint i)),
               json_Unmarshal = (\<lambda>s. None),
               json_Unmarshal_TimerRequest = (\<lambda>s. Some \<lparr>req_SessionID = s, req_MaxTime = 0\<rparr>)\<rparr>"

text \<open>
  A table with a running timer, a paused one, an expired one, and a running one whose
  store write is refused.
\<close>

definition tick_world :: world where
  "tick_world = NewWorld
     \<lparr>rows := [\<lparr>ID = 1, SessionID = ''s1'', MaxTime = 60, CurrentTime = 30, IsPaused = False\<rparr>,
               \<lparr>ID = 2, SessionID = ''s2'', MaxTime = 60, CurrentTime = 10, IsPaused = True\<rparr>,
               \<lparr>ID = 3, SessionID = ''s3'', MaxTime = 60, CurrentTime = 0, IsPaused = False\<rparr>,
               \<lparr>ID = 4, SessionID = ''s4'', MaxTime = 60, CurrentTime = 5, IsPaused = False\<rparr>],
      next_id := 5\<rparr>"

definition tick_env :: env where
  "tick_env = test_env
     \<lparr>fails := (\<lambda>c. c = RepoUpdate \<lparr>ID = 4, SessionID = ''s4'', MaxTime = 60,
                                     CurrentTime = 4, IsPaused = False\<rparr>)\<rparr>"

text \<open>
  For the restore procedure: the keys the scan finds, the timer a key yields when its
  fetch and its decoding both succeed, and a list of timers saved one after the other.
\<close>

definition snapshot_keys :: "world \<Rightarrow> string list" where
  "snapshot_keys w = filter (has_prefix ''timer:'') (map fst (redis w))"

definition restorable :: "env \<Rightarrow> world \<Rightarrow> string \<Rightarrow> Timer option" where
  "restorable e w key =
     (if fails e (RedisGet key) then None
      else (case map_of (redis w) key of
              None \<Rightarrow> None
            | Some timerJSON \<Rightarrow> json_Unmarshal e timerJSON))"

definition save_all :: "Timer list \<Rightarrow> world \<Rightarrow> world" where
  "save_all ts w = fold (\<lambda>t v. snd (save_row t v)) ts w"

text \<open>
  A restart with four snapshots: the fetch of the first fails, the second does not
  decode, the store refuses the third, the fourth goes through.
\<close>

definition restore_world :: world where
  "restore_world = NewWorld
     \<lparr>rows := [\<lparr>ID = 1, SessionID = ''c'', MaxTime = 60, CurrentTime = 60, IsPaused = False\<rparr>,
               \<lparr>ID = 2, SessionID = ''d'', MaxTime = 60, CurrentTime = 60, IsPaused = False\<rparr>],
      next_id := 3,
      redis := [(''timer:a'', ''A''), (''timer:b'', ''B''), (''timer:c'', ''C''),
                (''timer:d'', ''D''), (''other'', ''Z'')]\<rparr>"

definition restore_env :: env where
  "restore_env = test_env
     \<lparr>fails := (\<lambda>c. c = RedisGet ''timer:a'' \<or>
                     c = RepoUpdate \<lparr>ID = 1, SessionID = ''c'', MaxTime = 60,
                                     CurrentTime = 41, IsPaused = False\<rparr>),
      json_Unmarshal := (\<lambda>s.
        if s = ''C'' then Some \<lparr>ID = 1, SessionID = ''c'', MaxTime = 60,
                                CurrentTime = 41, IsPaused = False\<rparr>
        else if s = ''D'' then Some \<lparr>ID = 2, SessionID = ''d'', MaxTime = 60,
                                     CurrentTime = 17, IsPaused = True\<rparr>
        else None)\<rparr>"

section \<open>Basic facts\<close>

lemma Sprint_1: "Sprint 1 = ''1''"
  by (subst Sprint.simps) (simp add: digit_char_def)

lemma record_call_simps [simp]:
  "rows (record_call c w) = rows w"
  "next_id (record_call c w) = next_id w"
  "redis (record_call c w) = redis w"
  "connections (record_call c w) = connections w"
  "stopChan_closed (record_call c w) = stopChan_closed w"
  "trace (record_call c w) = trace w @ [c]"
  by (simp_all add: record_call_def)

lemma sint_decrement:
  fixes x :: int64
  assumes "0 <s x"
  shows "sint (x - 1) = sint x - 1"
proof -
  from assms have pos: "0 < sint x" by (simp add: word_sless_alt)
  have ub: "sint x < 2 ^ 63" using sint_lt [of x] by simp
  have "sint (x - 1) = signed_take_bit 63 (sint x - 1)"
    by (simp add: sint_word_ariths)
  also have "\<dots> = sint x - 1"
    using pos ub by (intro signed_take_bit_int_eq_self) auto
  finally show ?thesis .
qed

lemma decrement_in_range:
  fixes x m :: int64
  shows "0 <s x \<Longrightarrow> x \<le>s m \<Longrightarrow> 0 \<le>s x - 1 \<and> x - 1 \<le>s m"
  using sint_decrement [of x] by (simp add: word_sle_eq word_sless_alt)

text \<open>The fan-out loop only appends writes to the trace, one per selected entry.\<close>

lemma broadcastMessage_loop_eq:
  "broadcastMessage_loop m sid g cs w =
     w\<lparr>trace := trace w @
        map (\<lambda>x. ConnWriteJSON (snd x) m) (filter (\<lambda>x. g \<or> fst x = sid) cs)\<rparr>"
  by (induction cs arbitrary: w) (auto simp: record_call_def)

lemma broadcastMessage_eq:
  "broadcastMessage m sid g w =
     w\<lparr>trace := trace w @
        map (\<lambda>x. ConnWriteJSON (snd x) m) (filter (\<lambda>x. g \<or> fst x = sid) (connections w))\<rparr>"
  by (simp add: broadcastMessage_def broadcastMessage_loop_eq)

lemma conn_writes_append [simp]: "conn_writes (xs @ ys) = conn_writes xs @ conn_writes ys"
  by (induction xs rule: conn_writes.induct) auto

lemma conn_writes_map_write [simp]:
  "conn_writes (map (\<lambda>x. ConnWriteJSON (snd x) m) cs) = map (\<lambda>x. (snd x, m)) cs"
  by (induction cs) auto

lemma Sprint_numeral:
  "Sprint (numeral k) =
     (if (numeral k :: nat) < 10 then [digit_char (numeral k)]
      else Sprint (numeral k div 10) @ [digit_char (numeral k mod 10)])"
  by (rule Sprint.simps)

lemma Sprint_Suc_0 [simp]: "Sprint (Suc 0) = ''1''"
  using Sprint_1 by simp

lemma Timer_copy [simp]:
  "\<lparr>ID = ID t, SessionID = SessionID t, MaxTime = MaxTime t,
    CurrentTime = CurrentTime t, IsPaused = IsPaused t\<rparr> = (t::Timer)"
  by (cases t) simp

text \<open>What a store write does to the table.\<close>

lemma save_row_replace:
  "ID t \<noteq> 0 \<Longrightarrow> has_row (ID t) w \<Longrightarrow>
     save_row t w = (t, w\<lparr>rows := map (\<lambda>r. if ID r = ID t then t else r) (rows w)\<rparr>)"
  by (simp add: save_row_def)

lemma save_row_frame [simp]:
  "redis (snd (save_row t w)) = redis w"
  "connections (snd (save_row t w)) = connections w"
  "trace (snd (save_row t w)) = trace w"
  by (simp_all add: save_row_def insert_row_def Let_def)

lemma save_row_rows_subset:
  "set (rows (snd (save_row t w))) \<subseteq> set (rows w) \<union> {t, t\<lparr>ID := next_id w\<rparr>}"
  by (auto simp: save_row_def insert_row_def Let_def)

lemma repo_Update_frame [simp]:
  "redis (snd (repo_Update e t w)) = redis w"
  "connections (snd (repo_Update e t w)) = connections w"
  "trace (snd (repo_Update e t w)) = trace w @ [RepoUpdate t]"
  by (simp_all add: repo_Update_def save_row_def insert_row_def Let_def)

lemma repo_Update_rows_subset:
  "set (rows (snd (repo_Update e t w))) \<subseteq> set (rows w) \<union> {t, t\<lparr>ID := next_id w\<rparr>}"
  using save_row_rows_subset [of t "record_call (RepoUpdate t) w"]
  by (auto simp: repo_Update_def Let_def split: prod.splits)

lemma repo_Update_result:
  "repo_Update e t w = (Inr t', w') \<Longrightarrow> t' = t \<or> t' = t\<lparr>ID := next_id w\<rparr>"
  by (auto simp: repo_Update_def save_row_def insert_row_def Let_def split: prod.splits if_splits)

lemma persistTimer_frame [simp]:
  "rows (persistTimer e t w) = rows w"
  "next_id (persistTimer e t w) = next_id w"
  "connections (persistTimer e t w) = connections w"
  by (simp_all add: persistTimer_def redis_Set_def Let_def split: option.splits)

lemma broadcastTimerUpdate_eq:
  "broadcastTimerUpdate e t w =
     (case json_Marshal e t of
        None \<Rightarrow> w
      | Some p \<Rightarrow> w\<lparr>trace := trace w @
          map (\<lambda>x. ConnWriteJSON (snd x) \<lparr>Type = TypeTimerUpdate, Payload = p\<rparr>) (connections w)\<rparr>)"
  by (simp add: broadcastTimerUpdate_def BroadcastTimerUpdate_def Handler_broadcastTimerUpdate_def
      broadcastMessage_eq Let_def split: option.splits)

lemma broadcastTimerUpdate_frame [simp]:
  "rows (broadcastTimerUpdate e t w) = rows w"
  "next_id (broadcastTimerUpdate e t w) = next_id w"
  "redis (broadcastTimerUpdate e t w) = redis w"
  "connections (broadcastTimerUpdate e t w) = connections w"
  by (simp_all add: broadcastTimerUpdate_eq split: option.splits)

lemma redis_sets_append [simp]: "redis_sets (xs @ ys) = redis_sets xs @ redis_sets ys"
  by (induction xs rule: redis_sets.induct) auto

lemma redis_sets_writes [simp]: "redis_sets (map (\<lambda>x. ConnWriteJSON (snd x) m) cs) = []"
  by (induction cs) auto

lemma broadcastTimerUpdate_redis_sets [simp]:
  "redis_sets (trace (broadcastTimerUpdate e t w)) = redis_sets (trace w)"
  by (simp add: broadcastTimerUpdate_eq split: option.splits)

lemma updateTimers_loop_cache:
  "redis (updateTimers_loop e ts w) = redis w \<and>
   redis_sets (trace (updateTimers_loop e ts w)) = redis_sets (trace w)"
proof (induction ts arbitrary: w)
  case Nil
  show ?case by simp
next
  case (Cons t ts)
  let ?t1 = "t\<lparr>CurrentTime := CurrentTime t - 1\<rparr>"
  obtain r w1 where u: "repo_Update e ?t1 w = (r, w1)" by (cases "repo_Update e ?t1 w")
  have f: "redis w1 = redis w" "redis_sets (trace w1) = redis_sets (trace w)"
    using repo_Update_frame [of e ?t1 w] u by simp_all
  show ?case
    using Cons.IH u f by (cases r) (simp_all)
qed

lemma updateTimers_never_writes_cache:
  "redis (updateTimers e w) = redis w \<and>
   redis_sets (trace (updateTimers e w)) = redis_sets (trace w)"
  by (simp add: updateTimers_def repo_GetActiveTimers_def Let_def updateTimers_loop_cache)

lemma inv_timer_ID [simp]: "inv_timer (t\<lparr>ID := i\<rparr>) = inv_timer t"
  by (simp add: inv_timer_def)

lemma inv_timer_IsPaused [simp]: "inv_timer (t\<lparr>IsPaused := b\<rparr>) = inv_timer t"
  by (simp add: inv_timer_def)

lemma inv_timer_decrement:
  "inv_timer t \<Longrightarrow> 0 <s CurrentTime t \<Longrightarrow> inv_timer (t\<lparr>CurrentTime := CurrentTime t - 1\<rparr>)"
  using decrement_in_range [of "CurrentTime t" "MaxTime t"] by (simp add: inv_timer_def)

lemma inv_timer_reset:
  "0 \<le>s m \<Longrightarrow> inv_timer (t\<lparr>MaxTime := m, CurrentTime := m\<rparr>)"
  by (simp add: inv_timer_def)

lemma inv_rows_record_call [simp]: "inv_rows (record_call c w) = inv_rows w"
  by (simp add: inv_rows_def)

lemma inv_rows_persistTimer [simp]: "inv_rows (persistTimer e t w) = inv_rows w"
  by (simp add: inv_rows_def)

lemma inv_rows_broadcastTimerUpdate [simp]: "inv_rows (broadcastTimerUpdate e t w) = inv_rows w"
  by (simp add: inv_rows_def)

lemma inv_rows_repo_Update:
  assumes "inv_rows w" "inv_timer t"
  shows "inv_rows (snd (repo_Update e t w))"
  using assms repo_Update_rows_subset [of e t w]
  by (auto simp: inv_rows_def)

lemma inv_timer_repo_Update:
  assumes "inv_timer t" "repo_Update e t w = (Inr t', w')"
  shows "inv_timer t'"
  using assms repo_Update_result [of e t w t' w'] by auto

lemma inv_rows_repo_Create:
  assumes "inv_rows w" "inv_timer t"
  shows "inv_rows (snd (repo_Create e t w))"
  using assms
  by (auto simp: inv_rows_def repo_Create_def insert_row_def Let_def split: if_splits)

lemma inv_timer_repo_Create:
  assumes "inv_timer t" "repo_Create e t w = (Inr t', w')"
  shows "inv_timer t'"
  using assms
  by (auto simp: repo_Create_def insert_row_def Let_def split: if_splits)

lemma repo_FindByID_found:
  assumes "repo_FindByID e i w = (Inr t, w')"
  shows "t \<in> set (rows w) \<and> rows w' = rows w"
proof -
  from assms have f: "find (\<lambda>r. ID r = i) (rows w) = Some t" and r: "rows w' = rows w"
    by (auto simp: repo_FindByID_def find_row_def Let_def split: if_splits option.splits)
  from f have "t \<in> set (rows w)"
    by (auto simp: find_Some_iff)
  with r show ?thesis by simp
qed

lemma inv_rows_FindByID:
  assumes "inv_rows w"
  shows "inv_rows (snd (repo_FindByID e i w))"
  using assms by (auto simp: inv_rows_def repo_FindByID_def Let_def split: option.splits)

text \<open>A found timer, changed by \<open>f\<close> and saved: the shape of pause, resume and modify.\<close>

lemma inv_change_saved:
  assumes w: "inv_rows w"
    and f: "\<And>t. inv_timer t \<Longrightarrow> inv_timer (f t)"
  shows "inv_rows (snd (case repo_FindByID e i w of
            (Inl err, w1) \<Rightarrow> (Inl err, w1)
          | (Inr timer, w1) \<Rightarrow>
              (case repo_Update e (f timer) w1 of
                 (Inl err, w2) \<Rightarrow> (Inl err, w2)
               | (Inr timer', w2) \<Rightarrow> (Inr timer', persistTimer e timer' w2)))) \<and>
         (\<forall>t. fst (case repo_FindByID e i w of
            (Inl err, w1) \<Rightarrow> (Inl err, w1)
          | (Inr timer, w1) \<Rightarrow>
              (case repo_Update e (f timer) w1 of
                 (Inl err, w2) \<Rightarrow> (Inl err, w2)
               | (Inr timer', w2) \<Rightarrow> (Inr timer', persistTimer e timer' w2))) = Inr t
            \<longrightarrow> inv_timer t)"
proof (cases "repo_FindByID e i w")
  case (Pair r w1)
  have w1: "inv_rows w1" using inv_rows_FindByID [OF w, of e i] Pair by simp
  show ?thesis
  proof (cases r)
    case (Inl err)
    with Pair w1 show ?thesis by simp
  next
    case (Inr timer)
    with Pair have "timer \<in> set (rows w)" using repo_FindByID_found [of e i w timer w1] by simp
    with w have "inv_timer timer" by (simp add: inv_rows_def)
    then have ft: "inv_timer (f timer)" by (rule f)
    obtain r2 w2 where u: "repo_Update e (f timer) w1 = (r2, w2)"
      by (cases "repo_Update e (f timer) w1")
    have w2: "inv_rows w2" using inv_rows_repo_Update [OF w1 ft, of e] u by simp
    show ?thesis
    proof (cases r2)
      case (Inl err)
      with Pair Inr u w2 show ?thesis by simp
    next
      case (Inr timer')
      then have "inv_timer timer'" using inv_timer_repo_Update [OF ft] u by simp
      with Pair \<open>r = Inr timer\<close> Inr u w2 show ?thesis by simp
    qed
  qed
qed

lemma inv_rows_updateTimers_loop:
  "inv_rows w \<Longrightarrow> \<forall>t \<in> set ts. inv_timer t \<Longrightarrow> inv_rows (updateTimers_loop e ts w)"
proof (induction ts arbitrary: w)
  case Nil
  then show ?case by simp
next
  case (Cons t ts)
  show ?case
  proof (cases "\<not> IsPaused t \<and> 0 <s CurrentTime t")
    case False
    then have "updateTimers_loop e (t # ts) w = updateTimers_loop e ts w" by auto
    with Cons.IH [OF Cons.prems(1)] Cons.prems(2) show ?thesis by simp
  next
    case True
    let ?t1 = "t\<lparr>CurrentTime := CurrentTime t - 1\<rparr>"
    from Cons.prems True have t1: "inv_timer ?t1" by (simp add: inv_timer_decrement)
    obtain r w1 where u: "repo_Update e ?t1 w = (r, w1)" by (cases "repo_Update e ?t1 w")
    have w1: "inv_rows w1" using inv_rows_repo_Update [OF Cons.prems(1) t1, of e] u by simp
    from Cons.prems have rest: "\<forall>t \<in> set ts. inv_timer t" by simp
    show ?thesis
      using True u Cons.IH [OF _ rest] w1 by (cases r) simp_all
  qed
qed

lemma test_env_simps:
  "fails test_env c = False"
  "json_Marshal test_env t =
     Some (Sprint (ID t) @ '':'' @ SessionID t @ '':'' @ Sprint (unat (CurrentTime t)))"
  "json_Marshal_id test_env i = Some (Sprint i)"
  "json_Unmarshal test_env s = None"
  "json_Unmarshal_TimerRequest test_env s = Some \<lparr>req_SessionID = s, req_MaxTime = 0\<rparr>"
  by (simp_all add: test_env_def)

lemma created_world:
  "snd (CreateTimer test_env ''s1'' 60 NewWorld) =
     \<lparr>rows = [\<lparr>ID = 1, SessionID = ''s1'', MaxTime = 60, CurrentTime = 60, IsPaused = False\<rparr>],
      next_id = 2, redis = [(''timer:s1'', ''1:s1:60'')], connections = [],
      stopChan_closed = False,
      trace = [RepoCreate \<lparr>ID = 0, SessionID = ''s1'', MaxTime = 60, CurrentTime = 60, IsPaused = False\<rparr>,
               RedisSet ''timer:s1'' ''1:s1:60'']\<rparr>"
  by (simp add: CreateTimer_def repo_Create_def insert_row_def persistTimer_def redis_Set_def
      NewWorld_def test_env_simps Let_def record_call_def Sprint_numeral digit_char_def)

lemma repo_updates_append [simp]: "repo_updates (xs @ ys) = repo_updates xs @ repo_updates ys"
  by (induction xs rule: repo_updates.induct) auto

lemma repo_updates_writes [simp]: "repo_updates (map (\<lambda>x. ConnWriteJSON (snd x) m) cs) = []"
  by (induction cs) auto

lemma broadcastTimerUpdate_repo_updates [simp]:
  "repo_updates (trace (broadcastTimerUpdate e t w)) = repo_updates (trace w)"
  by (simp add: broadcastTimerUpdate_eq split: option.splits)

lemma has_row_record_call [simp]: "has_row i (record_call c w) = has_row i w"
  by (simp add: has_row_def)

lemma has_row_broadcastTimerUpdate [simp]: "has_row i (broadcastTimerUpdate e t w) = has_row i w"
  by (simp add: has_row_def)

lemma find_row_record_call [simp]: "find_row i (record_call c w) = find_row i w"
  by (simp add: find_row_def)

lemma find_row_broadcastTimerUpdate [simp]: "find_row i (broadcastTimerUpdate e t w) = find_row i w"
  by (simp add: find_row_def)

lemma find_replace:
  "find (\<lambda>r. ID r = i) (map (\<lambda>r. if ID r = ID t then t else r) rs) =
     (if ID t = i then map_option (\<lambda>_. t) (find (\<lambda>r. ID r = i) rs)
      else find (\<lambda>r. ID r = i) rs)"
  by (induction rs) auto

lemma find_distinct_ID:
  "distinct (map ID rs) \<Longrightarrow> t \<in> set rs \<Longrightarrow> find (\<lambda>r. ID r = ID t) rs = Some t"
  by (induction rs) (auto simp: image_iff)

lemma find_None_ID:
  "i \<notin> ID ` set rs \<Longrightarrow> find (\<lambda>r. ID r = i) rs = None"
  by (induction rs) auto

text \<open>A store write of a timer whose row exists.\<close>

lemma repo_Update_existing:
  assumes "ID t \<noteq> 0" "has_row (ID t) w"
  shows "repo_Update e t w =
     (if fails e (RepoUpdate t) then (Inl StoreError, record_call (RepoUpdate t) w)
      else (Inr t, (record_call (RepoUpdate t) w)
              \<lparr>rows := map (\<lambda>r. if ID r = ID t then t else r) (rows w)\<rparr>))"
  using assms by (simp add: repo_Update_def save_row_def Let_def)

lemma replace_IDs: "map ID (map (\<lambda>r. if ID r = ID t then t else r) rs) = map ID rs"
  by (induction rs) auto

lemma replace_has:
  "(\<exists>r \<in> set (map (\<lambda>r. if ID r = ID t then t else r) rs). ID r = j) = (\<exists>r \<in> set rs. ID r = j)"
  by (induction rs) auto

lemma has_row_IDs: "has_row j w = (j \<in> set (map ID (rows w)))"
  by (auto simp: has_row_def)

lemma has_row_replace [simp]:
  "has_row j (w\<lparr>rows := map (\<lambda>r. if ID r = ID t then t else r) (rows w)\<rparr>) = has_row j w"
  using replace_has [of t "rows w" j] by (simp add: has_row_def)

lemma find_row_replace:
  "find_row i (w\<lparr>rows := map (\<lambda>r. if ID r = ID t then t else r) (rows w)\<rparr>) =
     (if ID t = i then map_option (\<lambda>_. t) (find_row i w) else find_row i w)"
  by (simp add: find_row_def find_replace)

lemma decremented_ID [simp]: "ID (decremented t) = ID t"
  by (simp add: decremented_def)

lemma updateTimers_loop_step:
  "updateTimers_loop e (t # ts) w =
     (if tick_due t
      then (case repo_Update e (decremented t) w of
              (Inl err, w1) \<Rightarrow> updateTimers_loop e ts w1
            | (Inr timer', w1) \<Rightarrow> updateTimers_loop e ts (broadcastTimerUpdate e timer' w1))
      else updateTimers_loop e ts w)"
  by (simp add: tick_due_def decremented_def)

lemma updateTimers_loop_find_row:
  assumes "distinct (map ID ts)" and "\<forall>t \<in> set ts. ID t \<noteq> 0 \<and> has_row (ID t) w"
  shows "find_row i (updateTimers_loop e ts w) =
     (case find (\<lambda>t. ID t = i) ts of
        None \<Rightarrow> find_row i w
      | Some t \<Rightarrow>
          if tick_due t \<and> \<not> fails e (RepoUpdate (decremented t))
          then map_option (\<lambda>_. decremented t) (find_row i w)
          else find_row i w)"
  using assms
proof (induction ts arbitrary: w)
  case Nil
  show ?case by simp
next
  case (Cons t ts)
  from Cons.prems have d: "distinct (map ID ts)" and fresh: "ID t \<notin> ID ` set ts"
    and t: "ID t \<noteq> 0" "has_row (ID t) w"
    and rest: "\<forall>u \<in> set ts. ID u \<noteq> 0 \<and> has_row (ID u) w"
    by auto
  have none: "find (\<lambda>u. ID u = ID t) ts = None"
    using fresh by (rule find_None_ID)
  show ?case
  proof (cases "tick_due t \<and> \<not> fails e (RepoUpdate (decremented t))")
    case False
    have "find_row i (updateTimers_loop e (t # ts) w) = find_row i (updateTimers_loop e ts w)"
    proof (cases "tick_due t")
      case True
      with False have f: "fails e (RepoUpdate (decremented t))" by simp
      have "updateTimers_loop e (t # ts) w =
          updateTimers_loop e ts (record_call (RepoUpdate (decremented t)) w)"
        using True f t by (simp del: updateTimers_loop.simps add: updateTimers_loop_step repo_Update_existing)
      moreover have "find_row i (updateTimers_loop e ts (record_call (RepoUpdate (decremented t)) w)) =
          find_row i (updateTimers_loop e ts w)"
        using Cons.IH [OF d, of "record_call (RepoUpdate (decremented t)) w"]
          Cons.IH [OF d rest] rest by (simp split: option.splits)
      ultimately show ?thesis by simp
    next
      case False
      then show ?thesis by (simp del: updateTimers_loop.simps add: updateTimers_loop_step)
    qed
    also have "\<dots> = (case find (\<lambda>t. ID t = i) ts of
        None \<Rightarrow> find_row i w
      | Some t \<Rightarrow>
          if tick_due t \<and> \<not> fails e (RepoUpdate (decremented t))
          then map_option (\<lambda>_. decremented t) (find_row i w)
          else find_row i w)"
      by (rule Cons.IH [OF d rest])
    finally show ?thesis
      using False none by (cases "ID t = i") auto
  next
    case True
    define w2 where "w2 = broadcastTimerUpdate e (decremented t)
        ((record_call (RepoUpdate (decremented t)) w)
           \<lparr>rows := map (\<lambda>r. if ID r = ID t then decremented t else r) (rows w)\<rparr>)"
    have step: "updateTimers_loop e (t # ts) w = updateTimers_loop e ts w2"
      using True t unfolding w2_def
      by (simp del: updateTimers_loop.simps add: updateTimers_loop_step repo_Update_existing)
    have hr: "has_row j w2 = has_row j w" for j
      using has_row_replace [of j "decremented t" "record_call (RepoUpdate (decremented t)) w"]
      unfolding w2_def by simp
    have fr: "find_row i w2 =
        (if ID t = i then map_option (\<lambda>_. decremented t) (find_row i w) else find_row i w)"
      using find_row_replace [of i "decremented t" "record_call (RepoUpdate (decremented t)) w"]
      unfolding w2_def by simp
    have rest2: "\<forall>u \<in> set ts. ID u \<noteq> 0 \<and> has_row (ID u) w2"
      using rest hr by simp
    note ih = Cons.IH [OF d rest2]
    show ?thesis
    proof (cases "ID t = i")
      case same: True
      with none have "find (\<lambda>u. ID u = i) ts = None" by simp
      with ih have "find_row i (updateTimers_loop e ts w2) = find_row i w2" by simp
      with step fr same True show ?thesis by simp
    next
      case other: False
      with fr have eq: "find_row i w2 = find_row i w" by simp
      show ?thesis unfolding step ih eq using other by simp
    qed
  qed
qed


lemma updateTimers_loop_repo_updates:
  "repo_updates (trace (updateTimers_loop e ts w)) =
     repo_updates (trace w) @ map decremented (filter tick_due ts)"
proof (induction ts arbitrary: w)
  case Nil
  show ?case by simp
next
  case (Cons t ts)
  show ?case
  proof (cases "tick_due t")
    case False
    then show ?thesis
      using Cons.IH [of w] by (simp del: updateTimers_loop.simps add: updateTimers_loop_step)
  next
    case True
    obtain r w1 where u: "repo_Update e (decremented t) w = (r, w1)"
      by (cases "repo_Update e (decremented t) w")
    have tr: "repo_updates (trace w1) = repo_updates (trace w) @ [decremented t]"
      using repo_Update_frame(3) [of e "decremented t" w] u by simp
    show ?thesis
    proof (cases r)
      case (Inl err)
      with True u tr Cons.IH [of w1] show ?thesis
        by (simp del: updateTimers_loop.simps add: updateTimers_loop_step)
    next
      case (Inr t')
      with True u tr Cons.IH [of "broadcastTimerUpdate e t' w1"] show ?thesis
        by (simp del: updateTimers_loop.simps add: updateTimers_loop_step)
    qed
  qed
qed

lemma redis_gets_append [simp]: "redis_gets (xs @ ys) = redis_gets xs @ redis_gets ys"
  by (induction xs rule: redis_gets.induct) auto

lemma restorable_cong: "redis v = redis w \<Longrightarrow> restorable e v = restorable e w"
  by (rule ext) (simp add: restorable_def)

lemma RestoreTimers_loop_step:
  "RestoreTimers_loop e (key # keys) w =
     (case restorable e w key of
        None \<Rightarrow> RestoreTimers_loop e keys (record_call (RedisGet key) w)
      | Some timer \<Rightarrow>
          RestoreTimers_loop e keys (snd (repo_Update e timer (record_call (RedisGet key) w))))"
  by (simp add: redis_Get_def restorable_def Let_def split: option.splits)

lemma save_row_same_table:
  assumes "rows w = rows v" "next_id w = next_id v"
  shows "rows (snd (save_row t w)) = rows (snd (save_row t v)) \<and>
         next_id (snd (save_row t w)) = next_id (snd (save_row t v))"
  using assms by (simp add: save_row_def insert_row_def has_row_def Let_def)

lemma save_all_same_table:
  assumes "rows w = rows v" "next_id w = next_id v"
  shows "rows (save_all ts w) = rows (save_all ts v) \<and>
         next_id (save_all ts w) = next_id (save_all ts v)"
  using assms
proof (induction ts arbitrary: w v)
  case Nil
  then show ?case by (simp add: save_all_def)
next
  case (Cons t ts)
  from save_row_same_table [OF Cons.prems, of t]
  have "rows (save_all ts (snd (save_row t w))) = rows (save_all ts (snd (save_row t v))) \<and>
        next_id (save_all ts (snd (save_row t w))) = next_id (save_all ts (snd (save_row t v)))"
    by (intro Cons.IH) simp_all
  then show ?case by (simp add: save_all_def)
qed

lemma repo_Update_table:
  "rows (snd (repo_Update e t w)) =
     (if fails e (RepoUpdate t) then rows w else rows (snd (save_row t w))) \<and>
   next_id (snd (repo_Update e t w)) =
     (if fails e (RepoUpdate t) then next_id w else next_id (snd (save_row t w)))"
proof (cases "fails e (RepoUpdate t)")
  case True
  then show ?thesis by (simp add: repo_Update_def Let_def)
next
  case False
  have "rows (snd (save_row t (record_call (RepoUpdate t) w))) = rows (snd (save_row t w)) \<and>
        next_id (snd (save_row t (record_call (RepoUpdate t) w))) = next_id (snd (save_row t w))"
    by (rule save_row_same_table) simp_all
  with False show ?thesis by (simp add: repo_Update_def Let_def case_prod_beta)
qed

lemma RestoreTimers_loop_effect:
  "redis (RestoreTimers_loop e keys w) = redis w \<and>
   redis_gets (trace (RestoreTimers_loop e keys w)) = redis_gets (trace w) @ keys \<and>
   repo_updates (trace (RestoreTimers_loop e keys w)) =
     repo_updates (trace w) @ List.map_filter (restorable e w) keys \<and>
   rows (RestoreTimers_loop e keys w) =
     rows (save_all (filter (\<lambda>t. \<not> fails e (RepoUpdate t))
                      (List.map_filter (restorable e w) keys)) w) \<and>
   next_id (RestoreTimers_loop e keys w) =
     next_id (save_all (filter (\<lambda>t. \<not> fails e (RepoUpdate t))
                      (List.map_filter (restorable e w) keys)) w)"
proof (induction keys arbitrary: w)
  case Nil
  show ?case by (simp add: save_all_def)
next
  case (Cons key keys)
  let ?w1 = "record_call (RedisGet key) w"
  show ?case
  proof (cases "restorable e w key")
    case None
    have r: "restorable e ?w1 = restorable e w" by (rule restorable_cong) simp
    have st: "RestoreTimers_loop e (key # keys) w = RestoreTimers_loop e keys ?w1"
      using None by (simp only: RestoreTimers_loop_step option.case)
    let ?ts = "filter (\<lambda>t. \<not> fails e (RepoUpdate t)) (List.map_filter (restorable e w) keys)"
    have tab: "rows (save_all ?ts ?w1) = rows (save_all ?ts w) \<and>
               next_id (save_all ?ts ?w1) = next_id (save_all ?ts w)"
      by (rule save_all_same_table) simp_all
    show ?thesis
      unfolding st using Cons.IH [of ?w1] None tab by (simp add: r)
  next
    case (Some t)
    let ?w2 = "snd (repo_Update e t ?w1)"
    have r: "restorable e ?w2 = restorable e w" by (rule restorable_cong) simp
    have st: "RestoreTimers_loop e (key # keys) w = RestoreTimers_loop e keys ?w2"
      using Some by (simp only: RestoreTimers_loop_step option.case)
    let ?ts = "filter (\<lambda>t. \<not> fails e (RepoUpdate t)) (List.map_filter (restorable e w) keys)"
    let ?v = "if fails e (RepoUpdate t) then w else snd (save_row t w)"
    have "rows ?w2 = rows ?v \<and> next_id ?w2 = next_id ?v"
      using repo_Update_table [of e t ?w1] save_row_same_table [of ?w1 w t] by simp
    then have tab: "rows (save_all ?ts ?w2) = rows (save_all ?ts ?v) \<and>
               next_id (save_all ?ts ?w2) = next_id (save_all ?ts ?v)"
      by (intro save_all_same_table) simp_all
    have unfold: "save_all (filter (\<lambda>t. \<not> fails e (RepoUpdate t))
          (List.map_filter (restorable e w) (key # keys))) w = save_all ?ts ?v"
      using Some by (simp add: save_all_def)
    show ?thesis
      unfolding st unfold using Cons.IH [of ?w2] Some tab by (simp add: r)
  qed
qed

text \<open>What the two handler broadcasts write, for every registry and every sender flag.\<close>

lemma Handler_broadcastTimerUpdate_writes:
  "json_Marshal e timer = Some payload \<Longrightarrow>
     conn_writes (trace (Handler_broadcastTimerUpdate e timer isGameMaster w)) =
       conn_writes (trace w) @
       map (\<lambda>x. (snd x, \<lparr>Type = TypeTimerUpdate, Payload = payload\<rparr>))
         (filter (\<lambda>x. isGameMaster \<or> fst x = SessionID timer) (connections w))"
  by (simp add: Handler_broadcastTimerUpdate_def broadcastMessage_eq)


section \<open>Connection registry\<close>

text \<open>
  Claim C3 at a concrete run, the one of the handler's own broadcast test: two
  game-master channels 1 and 2 register, one after the other, under the same session
  identifier (the empty one). The registry is a map from session identifier to one
  connection, so it then holds the single entry of channel 2; a broadcast of the timer
  service is written to channel 2 and not to channel 1; and when the handler of channel
  1 ends, its \<^verbatim>\<open>closeConnection\<close> deletes by key and removes the entry of channel 2.
\<close>

theorem second_registration_orphans_first:
  "connections (register [] True 2 (register [] True 1 NewWorld)) = [([], 2)] \<and>
   conn_writes (trace (BroadcastTimerUpdate test_env
       \<lparr>ID = 1, SessionID = ''test-session'', MaxTime = 60, CurrentTime = 30, IsPaused = False\<rparr>
       (register [] True 2 (register [] True 1 NewWorld)))) =
     [(2, \<lparr>Type = TypeTimerUpdate, Payload = ''1:test-session:30''\<rparr>)] \<and>
   connections (closeConnection [] 1 (register [] True 2 (register [] True 1 NewWorld))) = []"
  by (simp add: register_def closeConnection_def NewWorld_def BroadcastTimerUpdate_def
      Handler_broadcastTimerUpdate_def broadcastMessage_eq test_env_simps Sprint_numeral
      digit_char_def)

section \<open>Stop signal of the tick engine\<close>

text \<open>
  Claim C5, as stated, fails: on a freshly constructed service the first
  \<^verbatim>\<open>StopTimerUpdates\<close> closes the stop channel, and the second one panics.
\<close>

theorem StopTimerUpdates_twice_panics:
  "StopTimerUpdates NewWorld = Inr (NewWorld\<lparr>stopChan_closed := True\<rparr>) \<and>
   StopTimerUpdates (NewWorld\<lparr>stopChan_closed := True\<rparr>) = Inl PanicCloseOfClosedChannel"
  by (simp add: StopTimerUpdates_def NewWorld_def)

text \<open>
  Claim C5, amended: the stop signal is one-shot. While the stop channel is open,
  \<^verbatim>\<open>StopTimerUpdates\<close> returns normally, closes the channel and changes nothing else; once
  the channel is closed (in particular after a first call), \<^verbatim>\<open>StopTimerUpdates\<close> panics.
\<close>

theorem StopTimerUpdates_one_shot:
  "(\<not> stopChan_closed w \<longrightarrow>
      (\<exists>w1. StopTimerUpdates w = Inr w1 \<and> stopChan_closed w1 \<and>
            rows w1 = rows w \<and> redis w1 = redis w \<and> connections w1 = connections w \<and>
            trace w1 = trace w \<and>
            StopTimerUpdates w1 = Inl PanicCloseOfClosedChannel)) \<and>
   (stopChan_closed w \<longrightarrow> StopTimerUpdates w = Inl PanicCloseOfClosedChannel)"
  by (simp add: StopTimerUpdates_def)

theorem StopTimerUpdates_one_shot_witness:
  "\<not> stopChan_closed NewWorld \<and>
   (\<exists>w1. StopTimerUpdates NewWorld = Inr w1 \<and> stopChan_closed w1 \<and>
         StopTimerUpdates w1 = Inl PanicCloseOfClosedChannel) \<and>
   stopChan_closed (NewWorld\<lparr>stopChan_closed := True\<rparr>) \<and>
   StopTimerUpdates (NewWorld\<lparr>stopChan_closed := True\<rparr>) = Inl PanicCloseOfClosedChannel"
  using StopTimerUpdates_one_shot [of NewWorld]
    StopTimerUpdates_one_shot [of "NewWorld\<lparr>stopChan_closed := True\<rparr>"]
  by (auto simp: NewWorld_def)

section \<open>Creating a timer\<close>

text \<open>
  Claim C10: \<^verbatim>\<open>CreateTimer\<close> validates nothing. It returns an error exactly when the
  store's create call fails; otherwise, for every session identifier (the empty one
  included) and every maximum (negative ones included), it returns a timer with that
  session identifier, \<open>currentTime = maxTime\<close> and \<open>isPaused = false\<close>, so a negative
  maximum gives a negative current time.
\<close>

theorem CreateTimer_no_validation:
  "((\<exists>err. fst (CreateTimer e sessionID maxTime w) = Inl err) \<longleftrightarrow>
      fails e (RepoCreate \<lparr>ID = 0, SessionID = sessionID, MaxTime = maxTime,
                           CurrentTime = maxTime, IsPaused = False\<rparr>)) \<and>
   (\<not> fails e (RepoCreate \<lparr>ID = 0, SessionID = sessionID, MaxTime = maxTime,
                           CurrentTime = maxTime, IsPaused = False\<rparr>) \<longrightarrow>
      (\<exists>t. fst (CreateTimer e sessionID maxTime w) = Inr t \<and>
         SessionID t = sessionID \<and> MaxTime t = maxTime \<and> CurrentTime t = maxTime \<and>
         \<not> IsPaused t \<and> (maxTime <s 0 \<longrightarrow> CurrentTime t <s 0)))"
  by (auto simp: CreateTimer_def repo_Create_def insert_row_def Let_def
      split: prod.splits sum.splits if_splits)

theorem CreateTimer_no_validation_witness:
  "\<not> fails test_env (RepoCreate \<lparr>ID = 0, SessionID = [], MaxTime = - 5,
                           CurrentTime = - 5, IsPaused = False\<rparr>) \<and>
   fst (CreateTimer test_env [] (- 5) NewWorld) =
     Inr \<lparr>ID = 1, SessionID = [], MaxTime = - 5, CurrentTime = - 5, IsPaused = False\<rparr> \<and>
   (- 5 :: int64) <s 0"
  using CreateTimer_no_validation [of test_env "[]" "- 5" NewWorld]
  by (simp add: CreateTimer_def repo_Create_def insert_row_def Let_def test_env_def NewWorld_def
      word_sless_alt)

section \<open>Fan-out\<close>

text \<open>
  Claim C4 at two concrete runs. The recipients are chosen by the role of the channel
  that triggered the broadcast, not by the role of the receiving entry. First conjunct:
  a customer channel 7 is registered for session \<open>s2\<close>, and the broadcast the tick engine
  makes for a timer of session \<open>s1\<close> is written to it. Second conjunct: a game-master
  channel 9 is registered under \<open>gm\<close>, and a broadcast for a timer of session \<open>s1\<close>
  triggered from a customer channel is not written to it.
\<close>

theorem TIMER_UPDATE_crosses_sessions:
  "conn_writes (trace (BroadcastTimerUpdate test_env
       \<lparr>ID = 1, SessionID = ''s1'', MaxTime = 60, CurrentTime = 59, IsPaused = False\<rparr>
       (register ''s2'' False 7 NewWorld))) =
     [(7, \<lparr>Type = TypeTimerUpdate, Payload = ''1:s1:59''\<rparr>)] \<and>
   conn_writes (trace (Handler_broadcastTimerUpdate test_env
       \<lparr>ID = 1, SessionID = ''s1'', MaxTime = 60, CurrentTime = 59, IsPaused = False\<rparr> False
       (register ''gm'' True 9 NewWorld))) = []"
  by (simp add: BroadcastTimerUpdate_def Handler_broadcastTimerUpdate_def broadcastMessage_eq
      register_def NewWorld_def test_env_simps Sprint_numeral digit_char_def)




section \<open>Stopping a timer\<close>

text \<open>
  Claim C6 at a concrete run: a timer is created for session \<open>s1\<close> and gets identifier 1;
  its snapshot is cached under \<open>timer:s1\<close>. Stopping timer 1 succeeds and removes the row,
  but the cache call deletes the key \<open>timer:1\<close>, built from the identifier, and the
  snapshot under \<open>timer:s1\<close> stays.
\<close>

theorem StopTimer_keeps_session_snapshot:
  "find_row 1 (snd (CreateTimer test_env ''s1'' 60 NewWorld)) =
     Some \<lparr>ID = 1, SessionID = ''s1'', MaxTime = 60, CurrentTime = 60, IsPaused = False\<rparr> \<and>
   redis (snd (CreateTimer test_env ''s1'' 60 NewWorld)) = [(''timer:s1'', ''1:s1:60'')] \<and>
   fst (StopTimer test_env 1 (snd (CreateTimer test_env ''s1'' 60 NewWorld))) = None \<and>
   find_row 1 (snd (StopTimer test_env 1 (snd (CreateTimer test_env ''s1'' 60 NewWorld)))) = None \<and>
   redis (snd (StopTimer test_env 1 (snd (CreateTimer test_env ''s1'' 60 NewWorld)))) =
     [(''timer:s1'', ''1:s1:60'')] \<and>
   trace (snd (StopTimer test_env 1 (snd (CreateTimer test_env ''s1'' 60 NewWorld)))) =
     [RepoCreate \<lparr>ID = 0, SessionID = ''s1'', MaxTime = 60, CurrentTime = 60, IsPaused = False\<rparr>,
      RedisSet ''timer:s1'' ''1:s1:60'', RepoDelete 1, RedisDel ''timer:1'']"
  by (simp add: created_world StopTimer_def repo_Delete_def redis_Del_def test_env_simps
      Let_def find_row_def)

section \<open>Invariant of the countdown\<close>

text \<open>
  Claim C2: \<open>0 \<le> currentTime \<le> maxTime\<close> is kept by every operation. If it holds of
  every row, then after create (with \<open>maxTime \<ge> 0\<close>), pause, resume, modify (with the new
  \<open>maxTime \<ge> 0\<close>) and a tick it holds of every row again, and of the timer the operation
  returns. Failures of the store or the cache at any point are included.
\<close>

theorem invariant_kept:
  "inv_rows w \<Longrightarrow>
     (0 \<le>s maxTime \<longrightarrow>
        inv_rows (snd (CreateTimer e sessionID maxTime w)) \<and>
        (\<forall>t. fst (CreateTimer e sessionID maxTime w) = Inr t \<longrightarrow> inv_timer t)) \<and>
     inv_rows (snd (PauseTimer e i w)) \<and>
     (\<forall>t. fst (PauseTimer e i w) = Inr t \<longrightarrow> inv_timer t) \<and>
     inv_rows (snd (ResumeTimer e i w)) \<and>
     (\<forall>t. fst (ResumeTimer e i w) = Inr t \<longrightarrow> inv_timer t) \<and>
     (0 \<le>s newMaxTime \<longrightarrow>
        inv_rows (snd (ModifyTimer e i newMaxTime w)) \<and>
        (\<forall>t. fst (ModifyTimer e i newMaxTime w) = Inr t \<longrightarrow> inv_timer t)) \<and>
     inv_rows (updateTimers e w)"
proof -
  assume w: "inv_rows w"
  have create: "inv_rows (snd (CreateTimer e sessionID maxTime w)) \<and>
      (\<forall>t. fst (CreateTimer e sessionID maxTime w) = Inr t \<longrightarrow> inv_timer t)"
    if m: "0 \<le>s maxTime"
  proof -
    let ?t = "\<lparr>ID = 0, SessionID = sessionID, MaxTime = maxTime,
               CurrentTime = maxTime, IsPaused = False\<rparr>"
    have t: "inv_timer ?t" using m by (simp add: inv_timer_def)
    obtain r w1 where c: "repo_Create e ?t w = (r, w1)" by (cases "repo_Create e ?t w")
    have w1: "inv_rows w1" using inv_rows_repo_Create [OF w t, of e] c by simp
    show ?thesis
    proof (cases r)
      case (Inl err)
      with c w1 show ?thesis by (simp add: CreateTimer_def)
    next
      case (Inr t')
      then have "inv_timer t'" using inv_timer_repo_Create [OF t] c by simp
      with c Inr w1 show ?thesis by (simp add: CreateTimer_def)
    qed
  qed
  have pause: "inv_rows (snd (PauseTimer e i w)) \<and>
      (\<forall>t. fst (PauseTimer e i w) = Inr t \<longrightarrow> inv_timer t)"
    unfolding PauseTimer_def
    by (rule inv_change_saved [OF w, where f = "\<lambda>t. t\<lparr>IsPaused := True\<rparr>"]) simp
  have resume: "inv_rows (snd (ResumeTimer e i w)) \<and>
      (\<forall>t. fst (ResumeTimer e i w) = Inr t \<longrightarrow> inv_timer t)"
    unfolding ResumeTimer_def
    by (rule inv_change_saved [OF w, where f = "\<lambda>t. t\<lparr>IsPaused := False\<rparr>"]) simp
  have modify: "inv_rows (snd (ModifyTimer e i newMaxTime w)) \<and>
      (\<forall>t. fst (ModifyTimer e i newMaxTime w) = Inr t \<longrightarrow> inv_timer t)"
    if m: "0 \<le>s newMaxTime"
    unfolding ModifyTimer_def
    by (rule inv_change_saved [OF w,
          where f = "\<lambda>t. t\<lparr>MaxTime := newMaxTime, CurrentTime := newMaxTime\<rparr>"])
       (simp add: inv_timer_reset m)
  have tick: "inv_rows (updateTimers e w)"
  proof (cases "fails e RepoGetActiveTimers")
    case True
    with w show ?thesis by (simp add: updateTimers_def repo_GetActiveTimers_def Let_def)
  next
    case False
    have "inv_rows (updateTimers_loop e (rows w) (record_call RepoGetActiveTimers w))"
      using w by (intro inv_rows_updateTimers_loop) (simp_all add: inv_rows_def)
    with False show ?thesis by (simp add: updateTimers_def repo_GetActiveTimers_def Let_def)
  qed
  from create pause resume modify tick show ?thesis by blast
qed

theorem invariant_kept_witness:
  "inv_rows (snd (CreateTimer test_env ''s1'' 60 NewWorld)) \<and>
   (0::int64) \<le>s 30 \<and> (0::int64) \<le>s 90 \<and>
   inv_rows (snd (CreateTimer test_env ''s2'' 30 (snd (CreateTimer test_env ''s1'' 60 NewWorld)))) \<and>
   inv_rows (snd (PauseTimer test_env 1 (snd (CreateTimer test_env ''s1'' 60 NewWorld)))) \<and>
   inv_rows (snd (ModifyTimer test_env 1 90 (snd (CreateTimer test_env ''s1'' 60 NewWorld)))) \<and>
   inv_rows (updateTimers test_env (snd (CreateTimer test_env ''s1'' 60 NewWorld))) \<and>
   rows (updateTimers test_env (snd (CreateTimer test_env ''s1'' 60 NewWorld))) =
     [\<lparr>ID = 1, SessionID = ''s1'', MaxTime = 60, CurrentTime = 59, IsPaused = False\<rparr>] \<and>
   fst (ModifyTimer test_env 1 90 (snd (CreateTimer test_env ''s1'' 60 NewWorld))) =
     Inr \<lparr>ID = 1, SessionID = ''s1'', MaxTime = 90, CurrentTime = 90, IsPaused = False\<rparr>"
proof -
  have h: "inv_rows (snd (CreateTimer test_env ''s1'' 60 NewWorld))"
    by (simp add: created_world inv_rows_def inv_timer_def word_sle_eq)
  have a: "(0::int64) \<le>s 30" and b: "(0::int64) \<le>s 90"
    by (simp_all add: word_sle_eq)
  note k = invariant_kept [OF h, of 30 test_env "''s2''" 1 90]
  have tick: "rows (updateTimers test_env (snd (CreateTimer test_env ''s1'' 60 NewWorld))) =
     [\<lparr>ID = 1, SessionID = ''s1'', MaxTime = 60, CurrentTime = 59, IsPaused = False\<rparr>]"
    by (simp add: created_world updateTimers_def repo_GetActiveTimers_def repo_Update_def save_row_def
      has_row_def broadcastTimerUpdate_eq Let_def record_call_def test_env_simps word_sless_alt)
  have modify: "fst (ModifyTimer test_env 1 90 (snd (CreateTimer test_env ''s1'' 60 NewWorld))) =
     Inr \<lparr>ID = 1, SessionID = ''s1'', MaxTime = 90, CurrentTime = 90, IsPaused = False\<rparr>"
    by (simp add: created_world ModifyTimer_def repo_FindByID_def find_row_def repo_Update_def save_row_def
      has_row_def Let_def record_call_def test_env_simps)
  from h a b k tick modify show ?thesis by blast
qed

section \<open>What a tick does besides the store write\<close>

text \<open>
  Claim C7 at a concrete run: a timer of session \<open>s1\<close> stands at 60 with its snapshot
  cached, and a customer channel 7 is registered for \<open>s1\<close>. One tick writes the
  decremented timer to the store and broadcasts it, in this order, and makes no call to
  the cache in between or after: channel 7 is sent the timer at 59, and the cache still
  holds the snapshot taken at 60.
\<close>

theorem tick_skips_cache:
  "rows (updateTimers test_env (register ''s1'' False 7 (snd (CreateTimer test_env ''s1'' 60 NewWorld)))) =
     [\<lparr>ID = 1, SessionID = ''s1'', MaxTime = 60, CurrentTime = 59, IsPaused = False\<rparr>] \<and>
   redis (snd (CreateTimer test_env ''s1'' 60 NewWorld)) = [(''timer:s1'', ''1:s1:60'')] \<and>
   redis (updateTimers test_env (register ''s1'' False 7 (snd (CreateTimer test_env ''s1'' 60 NewWorld)))) =
     [(''timer:s1'', ''1:s1:60'')] \<and>
   trace (updateTimers test_env (register ''s1'' False 7 (snd (CreateTimer test_env ''s1'' 60 NewWorld)))) =
     trace (snd (CreateTimer test_env ''s1'' 60 NewWorld)) @
     [RepoGetActiveTimers,
      RepoUpdate \<lparr>ID = 1, SessionID = ''s1'', MaxTime = 60, CurrentTime = 59, IsPaused = False\<rparr>,
      ConnWriteJSON 7 \<lparr>Type = TypeTimerUpdate, Payload = ''1:s1:59''\<rparr>]"
  by (simp add: created_world updateTimers_def repo_GetActiveTimers_def repo_Update_def save_row_def
      has_row_def broadcastTimerUpdate_eq register_def Let_def record_call_def test_env_simps
      word_sless_alt Sprint_numeral digit_char_def)

section \<open>The tick\<close>

text \<open>
  Claim C1: one tick, for every timer the store returns as active. The tick writes to the
  store exactly the timers that are not paused and have \<open>currentTime > 0\<close>, each with
  \<open>currentTime\<close> one less (as a signed number: no wrap-around). After the tick the row of
  such a timer holds the decremented value when the store accepted the write, and is
  unchanged when the store refused it; the row of a timer that is paused or at 0 is
  unchanged. A \<open>currentTime\<close> that is not negative before the tick is not negative after.
\<close>

theorem tick_decrements_by_one:
  assumes wf: "wf_rows w" and fetch: "\<not> fails e RepoGetActiveTimers"
  shows "repo_updates (trace (updateTimers e w)) =
           repo_updates (trace w) @ map decremented (filter tick_due (rows w)) \<and>
         (\<forall>t \<in> set (rows w).
            (tick_due t \<longrightarrow> sint (CurrentTime (decremented t)) = sint (CurrentTime t) - 1) \<and>
            find_row (ID t) (updateTimers e w) =
              Some (if tick_due t \<and> \<not> fails e (RepoUpdate (decremented t))
                    then decremented t else t) \<and>
            (IsPaused t \<or> CurrentTime t = 0 \<longrightarrow> find_row (ID t) (updateTimers e w) = Some t) \<and>
            (0 \<le>s CurrentTime t \<longrightarrow>
               (\<forall>t'. find_row (ID t) (updateTimers e w) = Some t' \<longrightarrow> 0 \<le>s CurrentTime t')))"
proof -
  let ?w0 = "record_call RepoGetActiveTimers w"
  have run: "updateTimers e w = updateTimers_loop e (rows w) ?w0"
    using fetch by (simp add: updateTimers_def repo_GetActiveTimers_def Let_def)
  have calls: "repo_updates (trace (updateTimers e w)) =
      repo_updates (trace w) @ map decremented (filter tick_due (rows w))"
    unfolding run by (simp add: updateTimers_loop_repo_updates)
  from wf have d: "distinct (map ID (rows w))"
    and pre: "\<forall>t \<in> set (rows w). ID t \<noteq> 0 \<and> has_row (ID t) ?w0"
    by (auto simp: wf_rows_def has_row_def)
  have each: "(tick_due t \<longrightarrow> sint (CurrentTime (decremented t)) = sint (CurrentTime t) - 1) \<and>
      find_row (ID t) (updateTimers e w) =
        Some (if tick_due t \<and> \<not> fails e (RepoUpdate (decremented t))
              then decremented t else t) \<and>
      (IsPaused t \<or> CurrentTime t = 0 \<longrightarrow> find_row (ID t) (updateTimers e w) = Some t) \<and>
      (0 \<le>s CurrentTime t \<longrightarrow>
         (\<forall>t'. find_row (ID t) (updateTimers e w) = Some t' \<longrightarrow> 0 \<le>s CurrentTime t'))"
    if t: "t \<in> set (rows w)" for t
  proof -
    have here: "find (\<lambda>r. ID r = ID t) (rows w) = Some t"
      using d t by (rule find_distinct_ID)
    then have before: "find_row (ID t) ?w0 = Some t"
      by (simp add: find_row_def)
    have after: "find_row (ID t) (updateTimers e w) =
        Some (if tick_due t \<and> \<not> fails e (RepoUpdate (decremented t))
              then decremented t else t)"
      unfolding run updateTimers_loop_find_row [OF d pre] here before by simp
    have one: "sint (CurrentTime (decremented t)) = sint (CurrentTime t) - 1" if "tick_due t"
      using that sint_decrement [of "CurrentTime t"] by (simp add: tick_due_def decremented_def)
    have idle: "\<not> tick_due t" if "IsPaused t \<or> CurrentTime t = 0"
      using that by (auto simp: tick_due_def)
    have nonneg: "0 \<le>s CurrentTime (decremented t)" if "tick_due t"
      using that one [OF that] by (simp add: tick_due_def word_sle_eq word_sless_alt)
    from after one idle nonneg show ?thesis by auto
  qed
  from calls each show ?thesis by blast
qed

theorem tick_decrements_by_one_witness:
  "wf_rows tick_world \<and> \<not> fails tick_env RepoGetActiveTimers \<and>
   find_row 1 (updateTimers tick_env tick_world) =
     Some \<lparr>ID = 1, SessionID = ''s1'', MaxTime = 60, CurrentTime = 29, IsPaused = False\<rparr> \<and>
   find_row 2 (updateTimers tick_env tick_world) =
     Some \<lparr>ID = 2, SessionID = ''s2'', MaxTime = 60, CurrentTime = 10, IsPaused = True\<rparr> \<and>
   find_row 3 (updateTimers tick_env tick_world) =
     Some \<lparr>ID = 3, SessionID = ''s3'', MaxTime = 60, CurrentTime = 0, IsPaused = False\<rparr> \<and>
   find_row 4 (updateTimers tick_env tick_world) =
     Some \<lparr>ID = 4, SessionID = ''s4'', MaxTime = 60, CurrentTime = 5, IsPaused = False\<rparr> \<and>
   repo_updates (trace (updateTimers tick_env tick_world)) =
     [\<lparr>ID = 1, SessionID = ''s1'', MaxTime = 60, CurrentTime = 29, IsPaused = False\<rparr>,
      \<lparr>ID = 4, SessionID = ''s4'', MaxTime = 60, CurrentTime = 4, IsPaused = False\<rparr>]"
proof -
  have wf: "wf_rows tick_world"
    by (simp add: wf_rows_def tick_world_def NewWorld_def)
  have fl: "fails tick_env c =
      (c = RepoUpdate \<lparr>ID = 4, SessionID = ''s4'', MaxTime = 60,
                         CurrentTime = 4, IsPaused = False\<rparr>)" for c
    by (simp add: tick_env_def)
  have fetch: "\<not> fails tick_env RepoGetActiveTimers"
    by (simp add: fl)
  have rs: "rows tick_world =
      [\<lparr>ID = 1, SessionID = ''s1'', MaxTime = 60, CurrentTime = 30, IsPaused = False\<rparr>,
       \<lparr>ID = 2, SessionID = ''s2'', MaxTime = 60, CurrentTime = 10, IsPaused = True\<rparr>,
       \<lparr>ID = 3, SessionID = ''s3'', MaxTime = 60, CurrentTime = 0, IsPaused = False\<rparr>,
       \<lparr>ID = 4, SessionID = ''s4'', MaxTime = 60, CurrentTime = 5, IsPaused = False\<rparr>]"
    and tr: "trace tick_world = []"
    by (simp_all add: tick_world_def NewWorld_def)
  from tick_decrements_by_one [OF wf fetch] wf fetch show ?thesis
    unfolding rs tr
    by (simp add: tick_due_def decremented_def fl word_sless_alt)
qed

section \<open>Restore\<close>

text \<open>
  Claim C9: when the scan for snapshot keys succeeds, \<^verbatim>\<open>RestoreTimers\<close> returns no error,
  fetches every key found, in order, and submits to the store every snapshot whose fetch
  and decoding succeeded, whatever happened to the snapshots before it. The table
  afterwards is the table with exactly the accepted writes applied: a snapshot whose
  fetch, decoding or store write fails is skipped and nothing else is.
\<close>

theorem RestoreTimers_attempts_every_key:
  assumes "\<not> fails e (RedisKeys ''timer:'')"
  shows "fst (RestoreTimers e w) = None \<and>
         redis_gets (trace (snd (RestoreTimers e w))) = redis_gets (trace w) @ snapshot_keys w \<and>
         repo_updates (trace (snd (RestoreTimers e w))) =
           repo_updates (trace w) @ List.map_filter (restorable e w) (snapshot_keys w) \<and>
         rows (snd (RestoreTimers e w)) =
           rows (save_all (filter (\<lambda>t. \<not> fails e (RepoUpdate t))
                            (List.map_filter (restorable e w) (snapshot_keys w))) w)"
proof -
  let ?w1 = "record_call (RedisKeys ''timer:'') w"
  have run: "RestoreTimers e w = (None, RestoreTimers_loop e (snapshot_keys w) ?w1)"
    using assms by (simp add: RestoreTimers_def redis_Keys_def snapshot_keys_def Let_def)
  have r: "restorable e ?w1 = restorable e w" by (rule restorable_cong) simp
  let ?ts = "filter (\<lambda>t. \<not> fails e (RepoUpdate t)) (List.map_filter (restorable e w) (snapshot_keys w))"
  have tab: "rows (save_all ?ts ?w1) = rows (save_all ?ts w)"
    using save_all_same_table [of ?w1 w ?ts] by simp
  show ?thesis
    unfolding run using RestoreTimers_loop_effect [of e "snapshot_keys w" ?w1] tab
    by (simp add: r)
qed

theorem RestoreTimers_attempts_every_key_witness:
  "\<not> fails restore_env (RedisKeys ''timer:'') \<and>
   fst (RestoreTimers restore_env restore_world) = None \<and>
   redis_gets (trace (snd (RestoreTimers restore_env restore_world))) =
     [''timer:a'', ''timer:b'', ''timer:c'', ''timer:d''] \<and>
   repo_updates (trace (snd (RestoreTimers restore_env restore_world))) =
     [\<lparr>ID = 1, SessionID = ''c'', MaxTime = 60, CurrentTime = 41, IsPaused = False\<rparr>,
      \<lparr>ID = 2, SessionID = ''d'', MaxTime = 60, CurrentTime = 17, IsPaused = True\<rparr>] \<and>
   rows (snd (RestoreTimers restore_env restore_world)) =
     [\<lparr>ID = 1, SessionID = ''c'', MaxTime = 60, CurrentTime = 60, IsPaused = False\<rparr>,
      \<lparr>ID = 2, SessionID = ''d'', MaxTime = 60, CurrentTime = 17, IsPaused = True\<rparr>]"
proof -
  have ok: "\<not> fails restore_env (RedisKeys ''timer:'')"
    by (simp add: restore_env_def)
  have keys: "snapshot_keys restore_world = [''timer:a'', ''timer:b'', ''timer:c'', ''timer:d'']"
    by (simp add: snapshot_keys_def restore_world_def NewWorld_def has_prefix_def)
  have dec: "List.map_filter (restorable restore_env restore_world)
        [''timer:a'', ''timer:b'', ''timer:c'', ''timer:d''] =
     [\<lparr>ID = 1, SessionID = ''c'', MaxTime = 60, CurrentTime = 41, IsPaused = False\<rparr>,
      \<lparr>ID = 2, SessionID = ''d'', MaxTime = 60, CurrentTime = 17, IsPaused = True\<rparr>]"
    by (simp add: restorable_def restore_env_def restore_world_def NewWorld_def)
  have tab: "rows (save_all (filter (\<lambda>t. \<not> fails restore_env (RepoUpdate t))
        [\<lparr>ID = 1, SessionID = ''c'', MaxTime = 60, CurrentTime = 41, IsPaused = False\<rparr>,
         \<lparr>ID = 2, SessionID = ''d'', MaxTime = 60, CurrentTime = 17, IsPaused = True\<rparr>])
        restore_world) =
     [\<lparr>ID = 1, SessionID = ''c'', MaxTime = 60, CurrentTime = 60, IsPaused = False\<rparr>,
      \<lparr>ID = 2, SessionID = ''d'', MaxTime = 60, CurrentTime = 17, IsPaused = True\<rparr>]"
    by (simp add: save_all_def save_row_def has_row_def restore_env_def restore_world_def NewWorld_def)
  have tr: "trace restore_world = []"
    by (simp add: restore_world_def NewWorld_def)
  from RestoreTimers_attempts_every_key [OF ok, of restore_world] ok show ?thesis
    unfolding keys dec tab tr by simp
qed

end
